theory Spec2Isabelle
  imports Main "HOL-Library.Word"
begin

unbundle bit_operations_syntax

text \<open>
  The Signature class of the library: the compact 65-byte encoding of a recoverable
  ECDSA signature over secp256k1 (\<open>fromBuffer\<close>, \<open>toBuffer\<close>), the test
  \<open>isCanonical\<close>, the two signing loops (\<open>signBufferSha256\<close>, \<open>signBuffer\<close>),
  the recovery of the public key and the two verification paths. The wrappers that only
  convert to and from hexadecimal strings are not modelled.
\<close>

section \<open>Buffers and big integers\<close>

text \<open>
  A Node \<open>Buffer\<close> is a sequence of bytes. The operations below are the ones the
  Signature class calls on buffers: \<open>readUInt8\<close>, \<open>writeUInt8\<close>, \<open>slice\<close>,
  \<open>copy\<close> and indexing.
\<close>

type_synonym byte = "8 word"
type_synonym buffer = "byte list"

text \<open>
  The exceptions of the class, one constructor for each \<open>throw\<close> and failing
  \<open>assert\<close>:
  \<^item> \<open>Invalid_signature_length\<close>: the assertion of \<open>fromBuffer\<close> on the length
    (message \<open>Invalid signature length\<close>);
  \<^item> \<open>Invalid_signature_parameter\<close>: the assertion of \<open>fromBuffer\<close> on the header
    byte (message \<open>Invalid signature parameter\<close>);
  \<^item> \<open>Buf_sha256_32_byte_buffer_required\<close>: the \<open>Error\<close> thrown by
    \<open>signBufferSha256\<close> (message \<open>buf_sha256: 32 byte buffer requred\<close>);
  \<^item> \<open>SHA256_should_be_32_bytes n\<close>: the assertion of \<open>verifyHash\<close> and
    \<open>verifyHashV2\<close>, whose message ends with the length \<open>n\<close> it got;
  \<^item> \<open>Value_out_of_bounds\<close>: the error \<open>writeUInt8\<close> raises on a value outside
    \<open>0..255\<close> or an offset outside the buffer.
\<close>

datatype error =
    Invalid_signature_length
  | Invalid_signature_parameter
  | Buf_sha256_32_byte_buffer_required
  | SHA256_should_be_32_bytes nat
  | Value_out_of_bounds

definition readUInt8 :: "buffer \<Rightarrow> nat \<Rightarrow> error + int" where
  "readUInt8 buf offset =
     (if offset < length buf then Inr (uint (buf ! offset)) else Inl Value_out_of_bounds)"

definition writeUInt8 :: "buffer \<Rightarrow> int \<Rightarrow> nat \<Rightarrow> error + buffer" where
  "writeUInt8 buf v offset =
     (if 0 \<le> v \<and> v \<le> 255 \<and> offset < length buf
      then Inr (buf[offset := word_of_int v])
      else Inl Value_out_of_bounds)"

text \<open>
  \<open>buf.slice(start, end)\<close> and \<open>buf.slice(start)\<close>, for offsets that are not negative
  (the word library has a \<open>slice\<close> of its own, hence the two names).
\<close>

definition slice_range :: "buffer \<Rightarrow> nat \<Rightarrow> nat \<Rightarrow> buffer" where
  "slice_range buf start stop = take (stop - start) (drop start buf)"

definition slice_from :: "buffer \<Rightarrow> nat \<Rightarrow> buffer" where
  "slice_from buf start = drop start buf"

text \<open>
  \<open>source.copy(target, targetStart)\<close> overwrites the target from \<open>targetStart\<close> on with
  the bytes of the source, as many as fit; the target keeps its length.
\<close>

definition copy :: "buffer \<Rightarrow> buffer \<Rightarrow> nat \<Rightarrow> buffer" where
  "copy source target targetStart =
     take targetStart target
     @ take (length target - targetStart) source
     @ drop (targetStart + length source) target"

text \<open>
  Modelled from the spec: the big integers of the \<open>bigi\<close> package, which the class
  imports and which is not part of the sources at hand. The values a Signature
  holds are unsigned (section 3 of the specification), so they are natural numbers here.
  \<open>BigInteger.fromBuffer\<close> reads a buffer as an unsigned big-endian integer.
\<close>

definition BigInteger_fromBuffer :: "buffer \<Rightarrow> nat" where
  "BigInteger_fromBuffer buf = foldl (\<lambda>acc b. acc * 256 + unat b) 0 buf"

text \<open>
  Modelled from the spec: \<open>toByteArrayUnsigned\<close> of \<open>bigi\<close>, the natural
  encoding of the integer: its big-endian bytes with no leading zero byte (none at all
  for zero).
\<close>

fun toByteArrayUnsigned :: "nat \<Rightarrow> buffer" where
  "toByteArrayUnsigned n =
     (if n = 0 then [] else toByteArrayUnsigned (n div 256) @ [of_nat (n mod 256)])"

declare toByteArrayUnsigned.simps [simp del]

text \<open>
  Modelled from the spec: \<open>x.toBuffer(size)\<close> of \<open>bigi\<close>, the natural encoding
  left-padded with zeros to \<open>size\<close> bytes. An integer whose natural encoding is longer
  than \<open>size\<close> is neither cut nor rejected: the buffer is then longer than \<open>size\<close>.
\<close>

definition BigInteger_toBuffer :: "nat \<Rightarrow> nat \<Rightarrow> buffer" where
  "BigInteger_toBuffer x sz =
     (let byteArray = toByteArrayUnsigned x;
          padding = sz - length byteArray
      in replicate padding 0 @ byteArray)"

section \<open>The Signature class\<close>

text \<open>
  The fields \<open>r\<close>, \<open>s\<close> and \<open>i\<close> of the class: two big integers and the header
  byte, a JavaScript number. The constructor only asserts that none of them is
  \<open>null\<close>, which no value of these types is. The selectors carry a prefix, which
  leaves the single letters to variables.
\<close>

record Signature =
  sig_r :: nat
  sig_s :: nat
  sig_i :: int

definition fromBuffer :: "buffer \<Rightarrow> error + Signature" where
  "fromBuffer buf =
     (if length buf \<noteq> 65 then Inl Invalid_signature_length
      else case readUInt8 buf 0 of
        Inl e \<Rightarrow> Inl e
      | Inr i \<Rightarrow>
          if i - 27 \<noteq> (i - 27) AND 7 then Inl Invalid_signature_parameter
          else Inr \<lparr>sig_r = BigInteger_fromBuffer (slice_range buf 1 33),
                    sig_s = BigInteger_fromBuffer (slice_from buf 33),
                    sig_i = i\<rparr>)"

text \<open>
  \<open>new Buffer(65)\<close> is 65 bytes, here zeros. What they hold does not matter: byte 0 is
  overwritten by the header and bytes 1 to 64 by the two copies, each of at least 32
  bytes.
\<close>

definition toBuffer :: "Signature \<Rightarrow> error + buffer" where
  "toBuffer sig =
     (case writeUInt8 (replicate 65 0) (sig_i sig) 0 of
        Inl e \<Rightarrow> Inl e
      | Inr buf0 \<Rightarrow>
          let buf1 = copy (BigInteger_toBuffer (sig_r sig) 32) buf0 1;
              buf2 = copy (BigInteger_toBuffer (sig_s sig) 32) buf1 33
          in Inr buf2)"

text \<open>
  \<open>isCanonical\<close> reads bytes 0 and 1 of the two 32-byte encodings. A buffer of
  \<open>toBuffer(32)\<close> is never shorter than 32 bytes, so both reads are inside it. A
  JavaScript number is true when it is not zero.
\<close>

definition isCanonical :: "Signature \<Rightarrow> bool" where
  "isCanonical sig =
     (let r = BigInteger_toBuffer (sig_r sig) 32;
          s = BigInteger_toBuffer (sig_s sig) 32
      in \<not> ((r ! 0) AND 0x80 \<noteq> 0) \<and>
         \<not> (r ! 0 = 0 \<and> \<not> ((r ! 1) AND 0x80 \<noteq> 0)) \<and>
         \<not> ((s ! 0) AND 0x80 \<noteq> 0) \<and>
         \<not> (s ! 0 = 0 \<and> \<not> ((s ! 1) AND 0x80 \<noteq> 0)))"

section \<open>The ECDSA engine\<close>

text \<open>
  The class calls functions of the modules \<open>./ecdsa\<close>, \<open>./hash\<close> and
  \<open>./PublicKey\<close> and of the \<open>secp256k1\<close> package, none of which is among the
  sources at hand. They are parameters of the model, collected in a record, with the
  signatures section 3 of the specification gives the engine. The curve argument is always
  the one curve \<open>secp256k1\<close> and is left out.

  Section 4.3 of the specification says that the signing primitive is sensitive to the
  context of the call: two calls with the same arguments may return different candidates.
  So \<open>sign\<close> takes and returns a state \<open>'w\<close> of the engine; an engine that is a function
  of its arguments ignores it. A private key is its scalar \<open>d\<close>; a public key is its
  curve point \<open>Q\<close>, of a type \<open>'q\<close> of the engine. A candidate of the engine is
  the pair of its integers \<open>r\<close> and \<open>s\<close>; its method \<open>toDER\<close> is a function of
  the engine. The parameters are total functions: an exception of the engine is not
  part of the model.
\<close>

record ECSignature =
  ecs_r :: nat
  ecs_s :: nat

record PrivateKey =
  key_d :: nat

record ('w, 'q) EcdsaEngine =
  sha256 :: "buffer \<Rightarrow> buffer"
  sign :: "'w \<Rightarrow> buffer \<Rightarrow> nat \<Rightarrow> nat \<Rightarrow> ECSignature \<times> 'w"
  toDER :: "ECSignature \<Rightarrow> buffer"
  calcPubKeyRecoveryParam :: "nat \<Rightarrow> ECSignature \<Rightarrow> 'q \<Rightarrow> int"
  recoverPubKey :: "nat \<Rightarrow> Signature \<Rightarrow> int \<Rightarrow> 'q"
  toPublicKey_Q :: "PrivateKey \<Rightarrow> 'q"
  verify :: "buffer \<Rightarrow> ECSignature \<Rightarrow> 'q \<Rightarrow> bool"
  secp256k1Lib_verify :: "buffer \<Rightarrow> buffer \<Rightarrow> buffer \<Rightarrow> bool"
  PublicKey_toBuffer :: "'q \<Rightarrow> buffer"

section \<open>Recovery and signing\<close>

text \<open>\<open>PublicKey.fromPoint(Q)\<close> wraps the point, which stands for the key here.\<close>

definition recoverPublicKey :: "('w, 'q) EcdsaEngine \<Rightarrow> Signature \<Rightarrow> buffer \<Rightarrow> 'q" where
  "recoverPublicKey E sig sha256_buffer =
     (let e = BigInteger_fromBuffer sha256_buffer;
          i = sig_i sig;
          i = i - 27;
          i = i AND 3;
          Q = recoverPubKey E e sig i
      in Q)"

definition recoverPublicKeyFromBuffer ::
  "('w, 'q) EcdsaEngine \<Rightarrow> Signature \<Rightarrow> buffer \<Rightarrow> 'q" where
  "recoverPublicKeyFromBuffer E sig buf = recoverPublicKey E sig (sha256 E buf)"

text \<open>
  \<open>der[k]\<close>: a read outside the buffer is \<open>undefined\<close> in JavaScript, which is
  \<open>None\<close> here; \<open>undefined === 32\<close> is false.
\<close>

definition buffer_at :: "buffer \<Rightarrow> nat \<Rightarrow> byte option" where
  "buffer_at buf k = (if k < length buf then Some (buf ! k) else None)"

text \<open>
  The test of the nonce loop on the DER encoding of a candidate:
  \<open>lenR = der[3]\<close>, \<open>lenS = der[5 + lenR]\<close>, \<open>lenR === 32 && lenS === 32\<close>.
\<close>

definition der_lengths_32 :: "buffer \<Rightarrow> bool" where
  "der_lengths_32 der =
     (case buffer_at der 3 of
        None \<Rightarrow> False
      | Some lenR \<Rightarrow> lenR = 32 \<and> buffer_at der (5 + unat lenR) = Some 32)"

text \<open>
  The argument of \<open>signBufferSha256\<close> is checked to be a buffer, so the model
  distinguishes a buffer from any other value, of which only the \<open>length\<close> property
  matters: \<open>NotBuffer (Some n)\<close> is a string or an array of length \<open>n\<close>,
  \<open>NotBuffer None\<close> a value with no such property, where \<open>length !== 32\<close> holds.
  The values \<open>null\<close> and \<open>undefined\<close>, on which reading a property raises a
  \<open>TypeError\<close>, are not values of this type. In \<open>signBufferSha256\<close> the test
  comes first, as in the source; past it the argument is a buffer, and the case of
  another value is never reached.
\<close>

datatype hash_arg = Buffer buffer | NotBuffer "nat option"

fun arg_length :: "hash_arg \<Rightarrow> nat option" where
  "arg_length (Buffer buf) = Some (length buf)"
| "arg_length (NotBuffer n) = n"

fun isBuffer :: "hash_arg \<Rightarrow> bool" where
  "isBuffer (Buffer buf) = True"
| "isBuffer (NotBuffer n) = False"

text \<open>
  The \<open>while (true)\<close> loop of \<open>signBufferSha256\<close>, from the nonce and the state of the
  engine it has reached. The loop has no bound: a run that never accepts a candidate
  is the value \<open>None\<close>. The warning the loop prints at every tenth nonce changes
  neither the result nor the control flow and is left out, as is the warning of the
  loop of \<open>signBuffer\<close>.
\<close>

partial_function (option) nonce_loop ::
  "('w, 'q) EcdsaEngine \<Rightarrow> buffer \<Rightarrow> PrivateKey \<Rightarrow> nat \<Rightarrow> nat \<Rightarrow> 'w \<Rightarrow> (Signature \<times> 'w) option"
where
  "nonce_loop E buf_sha256 private_key e nonce w =
     (case sign E w buf_sha256 (key_d private_key) nonce of
        (ecsignature, w') \<Rightarrow>
          if der_lengths_32 (toDER E ecsignature)
          then
            let i = calcPubKeyRecoveryParam E e ecsignature (toPublicKey_Q E private_key);
                i = i + 4;
                i = i + 27
            in Some (\<lparr>sig_r = ecs_r ecsignature, sig_s = ecs_s ecsignature, sig_i = i\<rparr>, w')
          else nonce_loop E buf_sha256 private_key e (nonce + 1) w')"

definition signBufferSha256 ::
  "('w, 'q) EcdsaEngine \<Rightarrow> hash_arg \<Rightarrow> PrivateKey \<Rightarrow> 'w \<Rightarrow> (error + Signature \<times> 'w) option"
where
  "signBufferSha256 E buf_sha256 private_key w =
     (if arg_length buf_sha256 \<noteq> Some 32 \<or> \<not> isBuffer buf_sha256
      then Some (Inl Buf_sha256_32_byte_buffer_required)
      else case buf_sha256 of
        NotBuffer n \<Rightarrow> Some (Inl Buf_sha256_32_byte_buffer_required)
      | Buffer buf \<Rightarrow>
          map_option Inr (nonce_loop E buf private_key (BigInteger_fromBuffer buf) 0 w))"

text \<open>
  The \<open>while (!signature.isCanonical())\<close> loop of \<open>signBuffer\<close>, from the candidate
  and the state of the engine it has reached. An exception of \<open>signBufferSha256\<close>
  leaves the loop; a call or a loop that never returns is \<open>None\<close>.
\<close>

partial_function (option) canonical_loop ::
  "('w, 'q) EcdsaEngine \<Rightarrow> buffer \<Rightarrow> PrivateKey \<Rightarrow> Signature \<Rightarrow> 'w \<Rightarrow> (error + Signature \<times> 'w) option"
where
  "canonical_loop E hash private_key signature w =
     (if \<not> isCanonical signature
      then
        (case signBufferSha256 E (Buffer hash) private_key w of
           None \<Rightarrow> None
         | Some (Inl err) \<Rightarrow> Some (Inl err)
         | Some (Inr (signature', w')) \<Rightarrow> canonical_loop E hash private_key signature' w')
      else Some (Inr (signature, w)))"

definition signBuffer ::
  "('w, 'q) EcdsaEngine \<Rightarrow> buffer \<Rightarrow> PrivateKey \<Rightarrow> 'w \<Rightarrow> (error + Signature \<times> 'w) option"
where
  "signBuffer E buf private_key w =
     (let hash = sha256 E buf in
      case signBufferSha256 E (Buffer hash) private_key w of
        None \<Rightarrow> None
      | Some (Inl err) \<Rightarrow> Some (Inl err)
      | Some (Inr (signature, w')) \<Rightarrow> canonical_loop E hash private_key signature w')"

section \<open>Verification\<close>

definition verifyHash ::
  "('w, 'q) EcdsaEngine \<Rightarrow> Signature \<Rightarrow> buffer \<Rightarrow> 'q \<Rightarrow> error + bool" where
  "verifyHash E sig hash public_key =
     (if length hash \<noteq> 32 then Inl (SHA256_should_be_32_bytes (length hash))
      else Inr (verify E hash \<lparr>ecs_r = sig_r sig, ecs_s = sig_s sig\<rparr> public_key))"

definition verifyHashV2 ::
  "('w, 'q) EcdsaEngine \<Rightarrow> Signature \<Rightarrow> buffer \<Rightarrow> 'q \<Rightarrow> error + bool" where
  "verifyHashV2 E sig hash public_key =
     (if length hash \<noteq> 32 then Inl (SHA256_should_be_32_bytes (length hash))
      else case toBuffer sig of
        Inl err \<Rightarrow> Inl err
      | Inr buf \<Rightarrow>
          Inr (secp256k1Lib_verify E hash (slice_from buf 1) (PublicKey_toBuffer E public_key)))"

definition verifyBuffer ::
  "('w, 'q) EcdsaEngine \<Rightarrow> Signature \<Rightarrow> buffer \<Rightarrow> 'q \<Rightarrow> error + bool" where
  "verifyBuffer E sig buf public_key = verifyHashV2 E sig (sha256 E buf) public_key"

section \<open>The words of the specification\<close>

text \<open>
  The fixed-width encoding of sections 4.1 and 6: \<open>big_endian n x\<close> is \<open>x\<close> as exactly
  \<open>n\<close> bytes, most significant first; byte \<open>k\<close> is \<open>x div 256 ^ (n - 1 - k) mod 256\<close>
  (the conversion to a byte takes the remainder).
\<close>

definition big_endian :: "nat \<Rightarrow> nat \<Rightarrow> buffer" where
  "big_endian n x = map (\<lambda>k. of_nat (x div 256 ^ (n - 1 - k))) [0..<n]"

text \<open>
  The predicate of section 4.2, in its words: for both \<open>r\<close> and \<open>s\<close>, written as 32
  bytes big-endian, the top bit of the first byte is 0, and it is not the case that the
  first byte is 0 while the top bit of the second byte is also 0.
\<close>

definition isCanonical_spec :: "Signature \<Rightarrow> bool" where
  "isCanonical_spec sig =
     (let r = big_endian 32 (sig_r sig);
          s = big_endian 32 (sig_s sig)
      in \<not> bit (r ! 0) 7 \<and> \<not> (r ! 0 = 0 \<and> \<not> bit (r ! 1) 7) \<and>
         \<not> bit (s ! 0) 7 \<and> \<not> (s ! 0 = 0 \<and> \<not> bit (s ! 1) 7))"

section \<open>Runs of the nonce loop\<close>

text \<open>
  The nonce loop calls the engine with the nonces 0, 1, 2, ... in turn.
  \<open>engine_state E buf key w n\<close> is the state of the engine before the call with nonce
  \<open>n\<close>, in the run that starts in state \<open>w\<close>; \<open>candidate E buf key w n\<close> is the
  candidate that call returns. For an engine that is a function of its arguments, it is
  the candidate of the nonce.
\<close>

primrec engine_state ::
  "('w, 'q) EcdsaEngine \<Rightarrow> buffer \<Rightarrow> PrivateKey \<Rightarrow> 'w \<Rightarrow> nat \<Rightarrow> 'w" where
  "engine_state E buf key w 0 = w"
| "engine_state E buf key w (Suc n) =
     snd (sign E (engine_state E buf key w n) buf (key_d key) n)"

definition candidate ::
  "('w, 'q) EcdsaEngine \<Rightarrow> buffer \<Rightarrow> PrivateKey \<Rightarrow> 'w \<Rightarrow> nat \<Rightarrow> ECSignature" where
  "candidate E buf key w n = fst (sign E (engine_state E buf key w n) buf (key_d key) n)"

text \<open>The Signature the loop builds from the candidate it accepts.\<close>

definition accepted_signature ::
  "('w, 'q) EcdsaEngine \<Rightarrow> buffer \<Rightarrow> PrivateKey \<Rightarrow> ECSignature \<Rightarrow> Signature" where
  "accepted_signature E buf key c =
     \<lparr>sig_r = ecs_r c, sig_s = ecs_s c,
      sig_i = calcPubKeyRecoveryParam E (BigInteger_fromBuffer buf) c (toPublicKey_Q E key)
              + 4 + 27\<rparr>"

section \<open>An engine to run the loops on\<close>

text \<open>
  A small engine for concrete runs. Its state counts the calls of \<open>sign\<close>. A candidate
  has \<open>r = 16 * nonce\<close> and \<open>s = 32\<close>, both raised by \<open>2 ^ 247\<close> from the fourth call
  on; its encoding declares the low byte of \<open>r\<close> and of \<open>s\<close> as the lengths of the two
  integers. So the nonce loop rejects the nonces 0 and 1 and accepts the nonce 2, and the
  first candidate it accepts, \<open>(32, 32)\<close>, is not canonical, while the second,
  \<open>(2 ^ 247 + 32, 2 ^ 247 + 32)\<close>, is.
\<close>

definition run_sign :: "nat \<Rightarrow> buffer \<Rightarrow> nat \<Rightarrow> nat \<Rightarrow> ECSignature \<times> nat" where
  "run_sign w buf d nonce =
     (let base = (if 3 \<le> w then 2 ^ 247 else 0)
      in (\<lparr>ecs_r = base + 16 * nonce, ecs_s = base + 32\<rparr>, w + 1))"

definition run_toDER :: "ECSignature \<Rightarrow> buffer" where
  "run_toDER c =
     (let lenR = of_nat (ecs_r c); lenS = of_nat (ecs_s c)
      in [0x30, 4 + lenR + lenS, 0x02, lenR] @ replicate (unat lenR) 1
         @ [0x02, lenS] @ replicate (unat lenS) 1)"

definition run_engine :: "(nat, nat) EcdsaEngine" where
  "run_engine =
     \<lparr>sha256 = (\<lambda>buf. replicate 32 (of_nat (length buf))),
      sign = run_sign,
      toDER = run_toDER,
      calcPubKeyRecoveryParam = (\<lambda>e c Q. 2),
      recoverPubKey = (\<lambda>e sig i. nat i),
      toPublicKey_Q = (\<lambda>key. key_d key),
      verify = (\<lambda>hash c Q. True),
      secp256k1Lib_verify = (\<lambda>hash sig pub. True),
      PublicKey_toBuffer = (\<lambda>Q. [])\<rparr>"

section \<open>Big integers and their bytes\<close>

text \<open>
  Decoding an encoding gives the integer back, and encoding at the width of a decoded
  buffer gives the buffer back. At a width that holds the integer, \<open>toBuffer\<close> is the
  fixed-width big-endian encoding.
\<close>

lemma toByteArrayUnsigned_0: "toByteArrayUnsigned 0 = []"
  by (simp add: toByteArrayUnsigned.simps)

lemma BigInteger_fromBuffer_snoc:
  "BigInteger_fromBuffer (xs @ [b]) = BigInteger_fromBuffer xs * 256 + unat b"
  by (simp add: BigInteger_fromBuffer_def)

lemma toByteArrayUnsigned_step:
  assumes "y * 256 + unat (b::byte) \<noteq> 0"
  shows "toByteArrayUnsigned (y * 256 + unat b) = toByteArrayUnsigned y @ [b]"
proof -
  have lt: "unat b < 256" using unsigned_less [of b, where ?'a = nat] by simp
  have d: "(y * 256 + unat b) div 256 = y" using lt by simp
  have "(y * 256 + unat b) mod 256 = unat b" using lt by simp
  then have m: "(of_nat ((y * 256 + unat b) mod 256) :: byte) = b" by simp
  show ?thesis
    using assms by (subst toByteArrayUnsigned.simps) (simp only: d m if_False)
qed

lemma BigInteger_toBuffer_step:
  "BigInteger_toBuffer (y * 256 + unat (b::byte)) (Suc n) = BigInteger_toBuffer y n @ [b]"
proof (cases "y * 256 + unat b = 0")
  case True
  then have "y = 0" "b = 0" by (auto simp: unat_eq_0)
  then show ?thesis
    by (simp add: BigInteger_toBuffer_def toByteArrayUnsigned_0 replicate_append_same)
next
  case False
  then show ?thesis
    by (simp add: BigInteger_toBuffer_def toByteArrayUnsigned_step Let_def)
qed

lemma BigInteger_toBuffer_fromBuffer:
  "BigInteger_toBuffer (BigInteger_fromBuffer xs) (length xs) = xs"
proof (induction xs rule: rev_induct)
  case Nil
  show ?case
    by (simp add: BigInteger_toBuffer_def BigInteger_fromBuffer_def toByteArrayUnsigned_0)
next
  case (snoc b xs)
  then show ?case by (simp add: BigInteger_fromBuffer_snoc BigInteger_toBuffer_step)
qed

lemma BigInteger_fromBuffer_toByteArrayUnsigned:
  "BigInteger_fromBuffer (toByteArrayUnsigned x) = x"
proof (induction x rule: toByteArrayUnsigned.induct)
  case (1 n)
  show ?case
  proof (cases "n = 0")
    case True
    then show ?thesis by (simp add: toByteArrayUnsigned_0 BigInteger_fromBuffer_def)
  next
    case False
    have "unat (of_nat (n mod 256) :: byte) = n mod 256"
      by (simp add: unat_of_nat)
    with False 1 show ?thesis
      by (subst toByteArrayUnsigned.simps) (simp add: BigInteger_fromBuffer_snoc)
  qed
qed

lemma BigInteger_fromBuffer_zeros:
  "BigInteger_fromBuffer (replicate k 0 @ xs) = BigInteger_fromBuffer xs"
  by (induction k) (simp_all add: BigInteger_fromBuffer_def)

lemma BigInteger_fromBuffer_toBuffer:
  "BigInteger_fromBuffer (BigInteger_toBuffer x n) = x"
  by (simp add: BigInteger_toBuffer_def Let_def BigInteger_fromBuffer_zeros BigInteger_fromBuffer_toByteArrayUnsigned)

lemma length_toByteArrayUnsigned:
  "x < 256 ^ n \<Longrightarrow> length (toByteArrayUnsigned x) \<le> n"
proof (induction n arbitrary: x)
  case 0
  then show ?case by (simp add: toByteArrayUnsigned_0)
next
  case (Suc n)
  show ?case
  proof (cases "x = 0")
    case True
    then show ?thesis by (simp add: toByteArrayUnsigned_0)
  next
    case False
    from Suc.prems have "x div 256 < 256 ^ n"
      by (simp add: less_mult_imp_div_less mult.commute)
    from Suc.IH [OF this] False show ?thesis
      by (subst toByteArrayUnsigned.simps) simp
  qed
qed

lemma length_BigInteger_toBuffer_ge: "n \<le> length (BigInteger_toBuffer x n)"
  by (simp add: BigInteger_toBuffer_def Let_def)

lemma length_BigInteger_toBuffer:
  "x < 256 ^ n \<Longrightarrow> length (BigInteger_toBuffer x n) = n"
  using length_toByteArrayUnsigned [of x n]
  by (simp add: BigInteger_toBuffer_def Let_def)

lemma BigInteger_fromBuffer_less: "BigInteger_fromBuffer xs < 256 ^ length xs"
proof (induction xs rule: rev_induct)
  case Nil
  show ?case by (simp add: BigInteger_fromBuffer_def)
next
  case (snoc b xs)
  have "unat b < 256" using unsigned_less [of b, where ?'a = nat] by simp
  with snoc show ?case by (simp add: BigInteger_fromBuffer_snoc)
qed

lemma BigInteger_toBuffer_big_endian:
  "x < 256 ^ n \<Longrightarrow> BigInteger_toBuffer x n = big_endian n x"
proof (induction n arbitrary: x)
  case 0
  then show ?case
    by (simp add: BigInteger_toBuffer_def big_endian_def toByteArrayUnsigned_0)
next
  case (Suc n)
  let ?b = "of_nat (x mod 256) :: byte"
  have ub: "unat ?b = x mod 256" by (simp add: unat_of_nat)
  have "x div 256 < 256 ^ n"
    using Suc.prems by (simp add: less_mult_imp_div_less mult.commute)
  then have ih: "BigInteger_toBuffer (x div 256) n = big_endian n (x div 256)"
    by (rule Suc.IH)
  have "BigInteger_toBuffer ((x div 256) * 256 + unat ?b) (Suc n)
        = BigInteger_toBuffer (x div 256) n @ [?b]"
    by (rule BigInteger_toBuffer_step)
  then have step: "BigInteger_toBuffer x (Suc n) = big_endian n (x div 256) @ [?b]"
    by (simp add: ub ih)
  have last: "(of_nat x :: byte) = ?b"
    by (simp add: word_of_nat_eq_iff take_bit_eq_mod)
  have front: "map (\<lambda>k. of_nat (x div 256 ^ (Suc n - 1 - k)) :: byte) [0..<n]
               = map (\<lambda>k. of_nat (x div 256 div 256 ^ (n - 1 - k))) [0..<n]"
  proof (rule map_cong [OF refl])
    fix k assume "k \<in> set [0..<n]"
    then have "Suc n - 1 - k = Suc (n - 1 - k)" by auto
    then show "(of_nat (x div 256 ^ (Suc n - 1 - k)) :: byte)
               = of_nat (x div 256 div 256 ^ (n - 1 - k))"
      by (simp add: div_mult2_eq)
  qed
  have "big_endian (Suc n) x = big_endian n (x div 256) @ [?b]"
    unfolding big_endian_def using front last by simp
  with step show ?case by simp
qed

section \<open>Encoding and decoding a Signature\<close>

lemma int_and_7: "(x::int) AND 7 = x mod 8"
proof -
  have "x AND mask 3 = take_bit 3 x" by (simp add: take_bit_eq_mask)
  then show ?thesis by (simp add: take_bit_eq_mod mask_eq_exp_minus_1)
qed

lemma int_and_3: "(x::int) AND 3 = x mod 4"
proof -
  have "x AND mask 2 = take_bit 2 x" by (simp add: take_bit_eq_mask)
  then show ?thesis by (simp add: take_bit_eq_mod mask_eq_exp_minus_1)
qed

lemma header_check: "(i - 27 \<noteq> (i - 27) AND 7) = (i < 27 \<or> 34 < (i::int))"
  unfolding int_and_7 by presburger

lemma fromBuffer_cases:
  "fromBuffer buf =
     (if length buf \<noteq> 65 then Inl Invalid_signature_length
      else if uint (buf ! 0) < 27 \<or> 34 < uint (buf ! 0) then Inl Invalid_signature_parameter
      else Inr \<lparr>sig_r = BigInteger_fromBuffer (slice_range buf 1 33),
                sig_s = BigInteger_fromBuffer (slice_from buf 33),
                sig_i = uint (buf ! 0)\<rparr>)"
  by (simp add: fromBuffer_def readUInt8_def header_check)

lemma toBuffer_layout:
  assumes "0 \<le> sig_i sig" "sig_i sig \<le> 255"
    and "sig_r sig < 2 ^ 256" "sig_s sig < 2 ^ 256"
  shows "toBuffer sig =
     Inr (word_of_int (sig_i sig) # BigInteger_toBuffer (sig_r sig) 32
          @ BigInteger_toBuffer (sig_s sig) 32)"
proof -
  let ?R = "BigInteger_toBuffer (sig_r sig) 32"
  let ?S = "BigInteger_toBuffer (sig_s sig) 32"
  let ?h = "word_of_int (sig_i sig) :: byte"
  have lr: "length ?R = 32" using assms(3) by (simp add: length_BigInteger_toBuffer)
  have ls: "length ?S = 32" using assms(4) by (simp add: length_BigInteger_toBuffer)
  have "replicate (Suc 64) (0::byte) = 0 # replicate 64 0" by (rule replicate_Suc)
  then have rep: "replicate 65 (0::byte) = 0 # replicate 64 0" by simp
  have w: "writeUInt8 (replicate 65 0) (sig_i sig) 0 = Inr (?h # replicate 64 0)"
    using assms(1,2) unfolding rep by (simp add: writeUInt8_def)
  have c1: "copy ?R (?h # replicate 64 0) 1 = ?h # ?R @ replicate 32 0"
    using lr by (simp add: copy_def)
  have c2: "copy ?S (?h # ?R @ replicate 32 0) 33 = ?h # ?R @ ?S"
    using lr ls by (simp add: copy_def)
  show ?thesis
    by (simp only: toBuffer_def w sum.case Let_def c1 c2)
qed

lemma buffer_65_split:
  assumes "length (b::buffer) = 65"
  shows "b = b ! 0 # slice_range b 1 33 @ slice_from b 33"
proof -
  from assms obtain h t where b: "b = h # t" by (cases b) auto
  with assms have "length t = 64" by simp
  have "t = take 32 t @ drop 32 t" by simp
  with b show ?thesis by (simp add: slice_range_def slice_from_def)
qed

lemma slice_1_33:
  "length R = 32 \<Longrightarrow> slice_range (h # R @ S) 1 33 = R"
  by (simp add: slice_range_def)

lemma slice_from_33:
  "length R = 32 \<Longrightarrow> slice_from (h # R @ S) 33 = S"
  by (simp add: slice_from_def)

section \<open>The canonical form in numbers\<close>

text \<open>
  For integers below \<open>2 ^ 256\<close> the byte tests of \<open>isCanonical\<close> say that \<open>r\<close> and
  \<open>s\<close> lie between \<open>2 ^ 247\<close> and \<open>2 ^ 255\<close>.
\<close>

lemma and_0x80: "((w::byte) AND 0x80 \<noteq> 0) = bit w 7"
proof -
  have "(w AND 2 ^ 7 = 0) = (\<not> bit w 7)" by (rule and_exp_eq_0_iff_not_bit)
  then show ?thesis by simp
qed

lemma bit_top_nat:
  assumes "(x::nat) < 2 ^ Suc n"
  shows "bit x n = (2 ^ n \<le> x)"
proof -
  have "x div 2 ^ n < 2"
    using assms by (simp add: less_mult_imp_div_less)
  then have "x div 2 ^ n = 0 \<or> x div 2 ^ n = 1" by auto
  moreover have "(x div 2 ^ n = 0) = (x < 2 ^ n)" by (simp add: div_eq_0_iff)
  ultimately show ?thesis by (auto simp add: bit_iff_odd)
qed

lemma big_endian_nth:
  "k < n \<Longrightarrow> big_endian n x ! k = of_nat (x div 256 ^ (n - 1 - k))"
  by (simp add: big_endian_def)

lemma bit_byte_of_div:
  "bit (of_nat (x div 2 ^ m) :: byte) 7 = bit x (m + 7)"
  by (simp add: bit_of_nat_iff drop_bit_eq_div [symmetric] bit_drop_bit_eq)

lemma pow_256_31: "(256::nat) ^ 31 = 2 ^ 248"
  by simp

lemma pow_256_30: "(256::nat) ^ 30 = 2 ^ 240"
  by simp

lemma big_endian_top_bit:
  assumes "x < 2 ^ 256"
  shows "bit (big_endian 32 x ! 0) 7 = (2 ^ 255 \<le> x)"
proof -
  have "big_endian 32 x ! 0 = of_nat (x div 2 ^ 248)"
    by (simp add: big_endian_nth pow_256_31)
  then have "bit (big_endian 32 x ! 0) 7 = bit x (248 + 7)"
    by (simp only: bit_byte_of_div)
  also have "\<dots> = (2 ^ 255 \<le> x)"
    using bit_top_nat [of x 255] assms by simp
  finally show ?thesis .
qed

lemma big_endian_first_zero:
  assumes "x < 2 ^ 256"
  shows "(big_endian 32 x ! 0 = 0) = (x < 2 ^ 248)"
proof -
  have b: "big_endian 32 x ! 0 = of_nat (x div 2 ^ 248)"
    by (simp add: big_endian_nth pow_256_31)
  have "x < 2 ^ 248 * 2 ^ 8" using assms by simp
  then have lt: "x div 2 ^ 248 < 2 ^ 8"
    by (simp only: less_mult_imp_div_less mult.commute)
  have "unat (of_nat (x div 2 ^ 248) :: byte) = x div 2 ^ 248"
    using lt by (simp add: unat_of_nat)
  then have "((of_nat (x div 2 ^ 248) :: byte) = 0) = (x div 2 ^ 248 = 0)"
    using unat_eq_0 [of "of_nat (x div 2 ^ 248) :: byte"] by simp
  also have "\<dots> = (x < 2 ^ 248)" by (simp add: div_eq_0_iff)
  finally show ?thesis using b by simp
qed

lemma big_endian_second_bit:
  assumes "x < 2 ^ 248"
  shows "bit (big_endian 32 x ! 1) 7 = (2 ^ 247 \<le> x)"
proof -
  have "big_endian 32 x ! 1 = of_nat (x div 2 ^ 240)"
    by (simp add: big_endian_nth pow_256_30)
  then have "bit (big_endian 32 x ! 1) 7 = bit x (240 + 7)"
    by (simp only: bit_byte_of_div)
  also have "\<dots> = (2 ^ 247 \<le> x)"
    using bit_top_nat [of x 247] assms by simp
  finally show ?thesis .
qed

lemma canonical_half:
  assumes "x < 2 ^ 256"
  shows "(\<not> bit (big_endian 32 x ! 0) 7 \<and>
          \<not> (big_endian 32 x ! 0 = 0 \<and> \<not> bit (big_endian 32 x ! 1) 7))
         = (2 ^ 247 \<le> x \<and> x < 2 ^ 255)"
proof -
  note top = big_endian_top_bit [OF assms]
  note zero = big_endian_first_zero [OF assms]
  show ?thesis
  proof (cases "x < 2 ^ 248")
    case True
    then have "x < 2 ^ 255" by simp
    with True top zero big_endian_second_bit [OF True] show ?thesis by auto
  next
    case False
    then have "2 ^ 247 \<le> x" by simp
    with False top zero show ?thesis by auto
  qed
qed

lemma isCanonical_bounds:
  assumes "sig_r sig < 2 ^ 256" and "sig_s sig < 2 ^ 256"
  shows "isCanonical sig =
     (2 ^ 247 \<le> sig_r sig \<and> sig_r sig < 2 ^ 255 \<and> 2 ^ 247 \<le> sig_s sig \<and> sig_s sig < 2 ^ 255)"
proof -
  have r: "BigInteger_toBuffer (sig_r sig) 32 = big_endian 32 (sig_r sig)"
    using assms(1) by (simp add: BigInteger_toBuffer_big_endian)
  have s: "BigInteger_toBuffer (sig_s sig) 32 = big_endian 32 (sig_s sig)"
    using assms(2) by (simp add: BigInteger_toBuffer_big_endian)
  have "isCanonical sig =
     ((\<not> bit (big_endian 32 (sig_r sig) ! 0) 7 \<and>
       \<not> (big_endian 32 (sig_r sig) ! 0 = 0 \<and> \<not> bit (big_endian 32 (sig_r sig) ! 1) 7)) \<and>
      (\<not> bit (big_endian 32 (sig_s sig) ! 0) 7 \<and>
       \<not> (big_endian 32 (sig_s sig) ! 0 = 0 \<and> \<not> bit (big_endian 32 (sig_s sig) ! 1) 7)))"
    by (simp only: isCanonical_def r s and_0x80 Let_def conj_assoc)
  then show ?thesis
    by (simp only: canonical_half [OF assms(1)] canonical_half [OF assms(2)] conj_assoc)
qed

section \<open>The two loops\<close>

lemma nonce_loop_accept:
  assumes "der_lengths_32 (toDER E (fst (sign E w buf (key_d key) n)))"
  shows "nonce_loop E buf key e n w =
     Some (\<lparr>sig_r = ecs_r (fst (sign E w buf (key_d key) n)),
            sig_s = ecs_s (fst (sign E w buf (key_d key) n)),
            sig_i = calcPubKeyRecoveryParam E e (fst (sign E w buf (key_d key) n))
                      (toPublicKey_Q E key) + 4 + 27\<rparr>,
           snd (sign E w buf (key_d key) n))"
  using assms by (subst nonce_loop.simps) (simp add: case_prod_beta)

lemma nonce_loop_reject:
  assumes "\<not> der_lengths_32 (toDER E (fst (sign E w buf (key_d key) n)))"
  shows "nonce_loop E buf key e n w =
     nonce_loop E buf key e (Suc n) (snd (sign E w buf (key_d key) n))"
  using assms by (subst nonce_loop.simps) (simp add: case_prod_beta)

lemma nonce_loop_run:
  assumes "der_lengths_32 (toDER E (candidate E buf key w m))"
    and "\<forall>k<m. j \<le> k \<longrightarrow> \<not> der_lengths_32 (toDER E (candidate E buf key w k))"
    and "j \<le> m"
  shows "nonce_loop E buf key (BigInteger_fromBuffer buf) j (engine_state E buf key w j) =
     Some (accepted_signature E buf key (candidate E buf key w m),
           engine_state E buf key w (Suc m))"
  using assms
proof (induction "m - j" arbitrary: j)
  case 0
  then have "j = m" by simp
  with "0.prems"(1) show ?case
    by (simp add: nonce_loop_accept candidate_def accepted_signature_def)
next
  case (Suc d)
  then have lt: "j < m" by simp
  with Suc.prems(2) have "\<not> der_lengths_32 (toDER E (candidate E buf key w j))" by simp
  then have "nonce_loop E buf key (BigInteger_fromBuffer buf) j (engine_state E buf key w j)
      = nonce_loop E buf key (BigInteger_fromBuffer buf) (Suc j)
          (engine_state E buf key w (Suc j))"
    by (simp add: nonce_loop_reject candidate_def)
  also have "\<dots> = Some (accepted_signature E buf key (candidate E buf key w m),
                        engine_state E buf key w (Suc m))"
  proof (rule Suc.hyps(1))
    show "d = m - Suc j" using Suc.hyps(2) by simp
    show "der_lengths_32 (toDER E (candidate E buf key w m))" by (rule Suc.prems(1))
    show "\<forall>k<m. Suc j \<le> k \<longrightarrow> \<not> der_lengths_32 (toDER E (candidate E buf key w k))"
      using Suc.prems(2) by simp
    show "Suc j \<le> m" using lt by simp
  qed
  finally show ?case .
qed

lemma candidate_stateless:
  assumes "\<And>w b d n. snd (sign E w b d n) = w"
  shows "candidate E buf key w n = fst (sign E w buf (key_d key) n)"
proof -
  have "engine_state E buf key w k = w" for k
    by (induction k) (simp_all add: assms)
  then show ?thesis by (simp add: candidate_def)
qed

lemma signBufferSha256_Buffer:
  "length buf = 32 \<Longrightarrow>
   signBufferSha256 E (Buffer buf) key w =
     map_option Inr (nonce_loop E buf key (BigInteger_fromBuffer buf) 0 w)"
  by (simp add: signBufferSha256_def)

lemma ECSignature_eta: "\<lparr>ecs_r = ecs_r c, ecs_s = ecs_s c\<rparr> = (c::ECSignature)"
  by (cases c) simp

lemma nonce_loop_header:
  assumes "nonce_loop E buf key e n w = Some y"
  shows "sig_i (fst y) =
     calcPubKeyRecoveryParam E e \<lparr>ecs_r = sig_r (fst y), ecs_s = sig_s (fst y)\<rparr>
       (toPublicKey_Q E key) + 4 + 27"
  by (rule nonce_loop.raw_induct
        [where P = "\<lambda>E buf key e n w y. sig_i (fst y) =
           calcPubKeyRecoveryParam E e \<lparr>ecs_r = sig_r (fst y), ecs_s = sig_s (fst y)\<rparr>
             (toPublicKey_Q E key) + 4 + 27", OF _ assms])
     (auto simp add: Let_def ECSignature_eta split: prod.splits if_splits)

lemma canonical_loop_result:
  assumes "canonical_loop E hash key sig0 w = Some y"
  shows "\<forall>sig w'. y = Inr (sig, w') \<longrightarrow> isCanonical sig"
  by (rule canonical_loop.raw_induct
        [where P = "\<lambda>E hash key sig0 w y. \<forall>sig w'. y = Inr (sig, w') \<longrightarrow> isCanonical sig",
         OF _ assms])
     (auto split: if_splits option.splits sum.splits prod.splits)

section \<open>The two verification paths\<close>

text \<open>
  On a hash of 32 bytes each path hands its arguments to its own primitive:
  \<open>verifyHash\<close> the integers \<open>r\<close> and \<open>s\<close> and the point of the key,
  \<open>verifyHashV2\<close> the 64 bytes of \<open>r\<close> and \<open>s\<close> and the bytes of the key. What
  the two primitives answer is not part of the class.
\<close>

lemma verifyHash_32:
  "length hash = 32 \<Longrightarrow>
   verifyHash E sig hash Q = Inr (verify E hash \<lparr>ecs_r = sig_r sig, ecs_s = sig_s sig\<rparr> Q)"
  by (simp add: verifyHash_def)

lemma verifyHashV2_32:
  assumes "length hash = 32"
    and "0 \<le> sig_i sig" and "sig_i sig \<le> 255"
    and "sig_r sig < 2 ^ 256" and "sig_s sig < 2 ^ 256"
  shows "verifyHashV2 E sig hash Q =
     Inr (secp256k1Lib_verify E hash (big_endian 32 (sig_r sig) @ big_endian 32 (sig_s sig))
            (PublicKey_toBuffer E Q))"
  using assms
  by (simp add: verifyHashV2_def toBuffer_layout slice_from_def BigInteger_toBuffer_big_endian)

section \<open>Runs of the small engine\<close>

lemma run_engine_simps:
  "sha256 run_engine buf = replicate 32 (of_nat (length buf))"
  "sign run_engine = run_sign"
  "toDER run_engine = run_toDER"
  "calcPubKeyRecoveryParam run_engine e c Q = 2"
  "toPublicKey_Q run_engine key = key_d key"
  by (simp_all add: run_engine_def)

lemma run_der_lengths_32:
  "der_lengths_32 (run_toDER c)
   = ((of_nat (ecs_r c) :: byte) = 32 \<and> (of_nat (ecs_s c) :: byte) = 32)"
  by (auto simp add: run_toDER_def der_lengths_32_def buffer_at_def Let_def nth_append)

lemma low_byte_2_247: "(of_nat (2 ^ 247 + n) :: byte) = of_nat n"
proof -
  have "(2::nat) ^ 247 = 256 * 2 ^ 239" by simp
  then have "(2 ^ 247 + n) mod 256 = n mod 256" by (simp only: mod_mult_self4)
  then show ?thesis by (simp only: word_of_nat_eq_iff take_bit_eq_mod) simp
qed

lemma run_nonce_loop_0: "nonce_loop run_engine buf key e 0 0
   = Some (\<lparr>sig_r = 32, sig_s = 32, sig_i = 33\<rparr>, 3)"
  apply (subst nonce_loop.simps)
  apply (simp add: run_engine_simps run_sign_def run_der_lengths_32)
  apply (subst nonce_loop.simps)
  apply (simp add: run_engine_simps run_sign_def run_der_lengths_32)
  apply (subst nonce_loop.simps)
  apply (simp add: run_engine_simps run_sign_def run_der_lengths_32)
  done

lemma run_nonce_loop_3: "nonce_loop run_engine buf key e 0 3
   = Some (\<lparr>sig_r = 2 ^ 247 + 32, sig_s = 2 ^ 247 + 32, sig_i = 33\<rparr>, 6)"
  apply (subst nonce_loop.simps)
  apply (simp add: run_engine_simps run_sign_def run_der_lengths_32 low_byte_2_247 del: of_nat_add of_nat_power)
  apply (subst nonce_loop.simps)
  apply (simp add: run_engine_simps run_sign_def run_der_lengths_32 low_byte_2_247 del: of_nat_add of_nat_power)
  apply (subst nonce_loop.simps)
  apply (simp add: run_engine_simps run_sign_def run_der_lengths_32 low_byte_2_247 del: of_nat_add of_nat_power)
  done

lemma run_first_not_canonical: "\<not> isCanonical \<lparr>sig_r = 32, sig_s = 32, sig_i = 33\<rparr>"
  by (simp add: isCanonical_bounds)

lemma run_second_canonical:
  "isCanonical \<lparr>sig_r = 2 ^ 247 + 32, sig_s = 2 ^ 247 + 32, sig_i = 33\<rparr>"
  by (simp add: isCanonical_bounds)

lemma run_signBufferSha256_0:
  "length buf = 32 \<Longrightarrow>
   signBufferSha256 run_engine (Buffer buf) key 0
   = Some (Inr (\<lparr>sig_r = 32, sig_s = 32, sig_i = 33\<rparr>, 3))"
  by (simp add: signBufferSha256_Buffer run_nonce_loop_0)

lemma run_signBufferSha256_3:
  "length buf = 32 \<Longrightarrow>
   signBufferSha256 run_engine (Buffer buf) key 3
   = Some (Inr (\<lparr>sig_r = 2 ^ 247 + 32, sig_s = 2 ^ 247 + 32, sig_i = 33\<rparr>, 6))"
  by (simp add: signBufferSha256_Buffer run_nonce_loop_3)

lemma run_signBuffer:
  "signBuffer run_engine buf key 0
   = Some (Inr (\<lparr>sig_r = 2 ^ 247 + 32, sig_s = 2 ^ 247 + 32, sig_i = 33\<rparr>, 6))"
proof -
  let ?h = "sha256 run_engine buf"
  let ?S = "\<lparr>sig_r = 2 ^ 247 + 32, sig_s = 2 ^ 247 + 32, sig_i = 33\<rparr>"
  have len: "length ?h = 32" by (simp add: run_engine_simps)
  have last: "canonical_loop run_engine ?h key ?S 6 = Some (Inr (?S, 6))"
    by (subst canonical_loop.simps) (simp only: run_second_canonical not_True_eq_False if_False)
  have "canonical_loop run_engine ?h key \<lparr>sig_r = 32, sig_s = 32, sig_i = 33\<rparr> 3
        = Some (Inr (?S, 6))"
    by (subst canonical_loop.simps)
       (simp only: run_first_not_canonical run_signBufferSha256_3 [OF len] last
          not_False_eq_True if_True option.case sum.case prod.case)
  then show ?thesis
    by (simp only: signBuffer_def Let_def run_signBufferSha256_0 [OF len]
          option.case sum.case prod.case)
qed

lemma run_candidates:
  "candidate run_engine buf key 0 0 = \<lparr>ecs_r = 0, ecs_s = 32\<rparr>"
  "candidate run_engine buf key 0 1 = \<lparr>ecs_r = 16, ecs_s = 32\<rparr>"
  "candidate run_engine buf key 0 (Suc 0) = \<lparr>ecs_r = 16, ecs_s = 32\<rparr>"
  "candidate run_engine buf key 0 2 = \<lparr>ecs_r = 32, ecs_s = 32\<rparr>"
  "engine_state run_engine buf key 0 3 = 3"
  by (simp_all add: candidate_def run_engine_simps run_sign_def eval_nat_numeral)

section \<open>The claims\<close>

text \<open>
  Claim C1. For every byte buffer and private key, whatever the engine and its state,
  a signature that \<open>signBuffer\<close> returns satisfies \<open>isCanonical\<close>: the retry loop
  returns a candidate only when the test holds for it. The concrete run after the
  theorem retries once: the first candidate the nonce loop accepts is not canonical,
  the second is returned.
\<close>

theorem signBuffer_isCanonical:
  assumes "signBuffer E buf key w = Some (Inr (sig, w'))"
  shows "isCanonical sig"
proof -
  from assms obtain sig0 w0 where
    "canonical_loop E (sha256 E buf) key sig0 w0 = Some (Inr (sig, w'))"
    by (auto simp add: signBuffer_def Let_def split: option.splits sum.splits prod.splits)
  from canonical_loop_result [OF this] show ?thesis by simp
qed

theorem signBuffer_isCanonical_witness:
  "signBuffer run_engine [1, 2, 3] \<lparr>key_d = 7\<rparr> 0
     = Some (Inr (\<lparr>sig_r = 2 ^ 247 + 32, sig_s = 2 ^ 247 + 32, sig_i = 33\<rparr>, 6)) \<and>
   isCanonical \<lparr>sig_r = 2 ^ 247 + 32, sig_s = 2 ^ 247 + 32, sig_i = 33\<rparr>"
  using signBuffer_isCanonical [OF run_signBuffer [of "[1, 2, 3]" "\<lparr>key_d = 7\<rparr>"]] run_signBuffer
  by simp

text \<open>
  Claim C2. For every buffer \<open>b\<close> of 65 bytes whose byte 0 lies in 27..34, decoding
  succeeds and encoding the decoded signature gives \<open>b\<close> back. Byte 0 is the header,
  bytes 1..33 are \<open>r\<close> and bytes 33..65 are \<open>s\<close>, each as 32 bytes big-endian.
\<close>

theorem Signature_decode_encode:
  assumes "length b = 65" and "27 \<le> uint (b ! 0)" and "uint (b ! 0) \<le> 34"
  shows "\<exists>sig. fromBuffer b = Inr sig \<and> toBuffer sig = Inr b \<and>
           sig_i sig = uint (b ! 0) \<and>
           b = b ! 0 # big_endian 32 (sig_r sig) @ big_endian 32 (sig_s sig)"
proof -
  let ?sig = "\<lparr>sig_r = BigInteger_fromBuffer (slice_range b 1 33),
               sig_s = BigInteger_fromBuffer (slice_from b 33),
               sig_i = uint (b ! 0)\<rparr>"
  have l1: "length (slice_range b 1 33) = 32" using assms(1) by (simp add: slice_range_def)
  have l2: "length (slice_from b 33) = 32" using assms(1) by (simp add: slice_from_def)
  have dec: "fromBuffer b = Inr ?sig"
    using assms by (simp add: fromBuffer_cases)
  have r: "BigInteger_toBuffer (sig_r ?sig) 32 = slice_range b 1 33"
    using BigInteger_toBuffer_fromBuffer [of "slice_range b 1 33"] l1 by simp
  have s: "BigInteger_toBuffer (sig_s ?sig) 32 = slice_from b 33"
    using BigInteger_toBuffer_fromBuffer [of "slice_from b 33"] l2 by simp
  have rb: "sig_r ?sig < 2 ^ 256"
    using BigInteger_fromBuffer_less [of "slice_range b 1 33"] l1 by simp
  have sb: "sig_s ?sig < 2 ^ 256"
    using BigInteger_fromBuffer_less [of "slice_from b 33"] l2 by simp
  have r': "big_endian 32 (sig_r ?sig) = slice_range b 1 33"
    using BigInteger_toBuffer_big_endian [of "sig_r ?sig" 32] rb r by simp
  have s': "big_endian 32 (sig_s ?sig) = slice_from b 33"
    using BigInteger_toBuffer_big_endian [of "sig_s ?sig" 32] sb s by simp
  have ib: "0 \<le> sig_i ?sig" "sig_i ?sig \<le> 255"
    using assms(2,3) by simp_all
  have split: "b = b ! 0 # slice_range b 1 33 @ slice_from b 33"
    by (rule buffer_65_split [OF assms(1)])
  have "toBuffer ?sig = Inr (word_of_int (sig_i ?sig) # slice_range b 1 33 @ slice_from b 33)"
    using toBuffer_layout [OF ib rb sb] r s by simp
  also have "word_of_int (sig_i ?sig) = b ! 0" by simp
  finally have enc: "toBuffer ?sig = Inr b" using split by simp
  have "b = b ! 0 # big_endian 32 (sig_r ?sig) @ big_endian 32 (sig_s ?sig)"
    using split by (simp only: r' s')
  with dec enc show ?thesis by (intro exI [of _ ?sig]) simp
qed

theorem Signature_decode_encode_witness:
  "length (31 # replicate 32 1 @ replicate 32 (2::byte)) = 65 \<and>
   27 \<le> uint ((31 # replicate 32 1 @ replicate 32 (2::byte)) ! 0) \<and>
   uint ((31 # replicate 32 1 @ replicate 32 (2::byte)) ! 0) \<le> 34 \<and>
   (\<exists>sig. fromBuffer (31 # replicate 32 1 @ replicate 32 2) = Inr sig \<and>
      toBuffer sig = Inr (31 # replicate 32 1 @ replicate 32 2) \<and>
      sig_i sig = 31)"
  using Signature_decode_encode [of "31 # replicate 32 1 @ replicate 32 2"] by auto

text \<open>
  Claim C3. \<open>fromBuffer\<close> fails exactly on malformed input. On a buffer whose length
  is not 65 the length assertion fails (the specification's InputError); on a buffer of
  65 bytes whose byte 0 is outside 27..34 the header assertion fails (the
  specification's FormatError); on a buffer of 65 bytes whose byte 0 is in 27..34 it
  returns a Signature. Byte 0 is outside 27..34 exactly when \<open>i - 27\<close> differs from
  its own bottom three bits, which is the test of the source.
\<close>

theorem fromBuffer_rejects_malformed:
  "(length b \<noteq> 65 \<longrightarrow> fromBuffer b = Inl Invalid_signature_length) \<and>
   (length b = 65 \<and> (uint (b ! 0) < 27 \<or> 34 < uint (b ! 0)) \<longrightarrow>
      fromBuffer b = Inl Invalid_signature_parameter) \<and>
   (length b = 65 \<and> 27 \<le> uint (b ! 0) \<and> uint (b ! 0) \<le> 34 \<longrightarrow>
      (\<exists>sig. fromBuffer b = Inr sig)) \<and>
   ((uint (b ! 0) < 27 \<or> 34 < uint (b ! 0)) =
      (uint (b ! 0) - 27 \<noteq> (uint (b ! 0) - 27) AND 7))"
  by (simp add: fromBuffer_cases header_check)

theorem fromBuffer_rejects_malformed_witness:
  "fromBuffer (replicate 64 0) = Inl Invalid_signature_length \<and>
   fromBuffer (replicate 66 0) = Inl Invalid_signature_length \<and>
   fromBuffer (26 # replicate 64 0) = Inl Invalid_signature_parameter \<and>
   fromBuffer (35 # replicate 64 0) = Inl Invalid_signature_parameter \<and>
   (\<exists>sig. fromBuffer (27 # replicate 64 0) = Inr sig) \<and>
   (\<exists>sig. fromBuffer (34 # replicate 64 0) = Inr sig)"
  using fromBuffer_rejects_malformed [of "replicate 64 0"] fromBuffer_rejects_malformed [of "replicate 66 0"]
    fromBuffer_rejects_malformed [of "26 # replicate 64 0"] fromBuffer_rejects_malformed [of "35 # replicate 64 0"]
    fromBuffer_rejects_malformed [of "27 # replicate 64 0"] fromBuffer_rejects_malformed [of "34 # replicate 64 0"]
  by simp

text \<open>
  Claim C4. For every Signature whose \<open>r\<close> and \<open>s\<close> fit in 32 bytes,
  \<open>isCanonical\<close> is true exactly when, with \<open>r\<close> and \<open>s\<close> written as 32 bytes
  big-endian, the top bit of byte 0 is 0 and it is not the case that byte 0 is 0 and
  the top bit of byte 1 is 0, for \<open>r\<close> and for \<open>s\<close>: the predicate of the source is
  the predicate of section 4.2.
\<close>

theorem isCanonical_iff_spec:
  assumes "sig_r sig < 2 ^ 256" and "sig_s sig < 2 ^ 256"
  shows "isCanonical sig = isCanonical_spec sig"
proof -
  have r: "BigInteger_toBuffer (sig_r sig) 32 = big_endian 32 (sig_r sig)"
    using assms(1) by (simp add: BigInteger_toBuffer_big_endian)
  have s: "BigInteger_toBuffer (sig_s sig) 32 = big_endian 32 (sig_s sig)"
    using assms(2) by (simp add: BigInteger_toBuffer_big_endian)
  show ?thesis
    by (simp only: isCanonical_def isCanonical_spec_def r s and_0x80 Let_def)
qed

theorem isCanonical_iff_spec_witness:
  "sig_r \<lparr>sig_r = 2 ^ 247 + 32, sig_s = 2 ^ 247 + 32, sig_i = 33\<rparr> < 2 ^ 256 \<and>
   sig_s \<lparr>sig_r = 2 ^ 247 + 32, sig_s = 2 ^ 247 + 32, sig_i = 33\<rparr> < 2 ^ 256 \<and>
   isCanonical \<lparr>sig_r = 2 ^ 247 + 32, sig_s = 2 ^ 247 + 32, sig_i = 33\<rparr> \<and>
   isCanonical_spec \<lparr>sig_r = 2 ^ 247 + 32, sig_s = 2 ^ 247 + 32, sig_i = 33\<rparr> \<and>
   \<not> isCanonical \<lparr>sig_r = 32, sig_s = 32, sig_i = 33\<rparr> \<and>
   \<not> isCanonical_spec \<lparr>sig_r = 32, sig_s = 32, sig_i = 33\<rparr>"
  using isCanonical_iff_spec [of "\<lparr>sig_r = 2 ^ 247 + 32, sig_s = 2 ^ 247 + 32, sig_i = 33\<rparr>"]
    isCanonical_iff_spec [of "\<lparr>sig_r = 32, sig_s = 32, sig_i = 33\<rparr>"]
    run_second_canonical run_first_not_canonical
  by simp

text \<open>
  Claim C5. For every signature \<open>signBufferSha256\<close> returns, with \<open>v\<close> the value
  \<open>calcPubKeyRecoveryParam\<close> returns for it (the call of the loop, on the
  candidate \<open>(r, s)\<close> of the signature): if \<open>v\<close> is one of 0, 1, 2, 3, the header
  byte is \<open>v + 4 + 27\<close>, it lies in 31..34, \<open>(i - 27) & 3\<close> is \<open>v\<close> again, and
  \<open>recoverPublicKey\<close> passes exactly \<open>v\<close> to \<open>recoverPubKey\<close>.
\<close>

theorem headerByte_pack_unpack:
  assumes "signBufferSha256 E (Buffer buf) key w = Some (Inr (sig, w'))"
    and "v = calcPubKeyRecoveryParam E (BigInteger_fromBuffer buf)
               \<lparr>ecs_r = sig_r sig, ecs_s = sig_s sig\<rparr> (toPublicKey_Q E key)"
    and "v \<in> {0, 1, 2, 3}"
  shows "sig_i sig = v + 4 + 27 \<and> 31 \<le> sig_i sig \<and> sig_i sig \<le> 34 \<and>
         (sig_i sig - 27) AND 3 = v \<and>
         recoverPublicKey E sig hash = recoverPubKey E (BigInteger_fromBuffer hash) sig v"
proof -
  from assms(1) have "nonce_loop E buf key (BigInteger_fromBuffer buf) 0 w = Some (sig, w')"
    by (auto simp add: signBufferSha256_def split: if_splits)
  from nonce_loop_header [OF this] assms(2) have i: "sig_i sig = v + 4 + 27" by simp
  have idx: "(sig_i sig - 27) AND 3 = v"
    using assms(3) unfolding i int_and_3 by auto
  show ?thesis
    using i idx assms(3) by (auto simp add: recoverPublicKey_def Let_def)
qed

theorem headerByte_pack_unpack_witness:
  "signBufferSha256 run_engine (Buffer (replicate 32 0)) \<lparr>key_d = 7\<rparr> 0
     = Some (Inr (\<lparr>sig_r = 32, sig_s = 32, sig_i = 33\<rparr>, 3)) \<and>
   (2::int) = calcPubKeyRecoveryParam run_engine (BigInteger_fromBuffer (replicate 32 0))
                \<lparr>ecs_r = 32, ecs_s = 32\<rparr> (toPublicKey_Q run_engine \<lparr>key_d = 7\<rparr>) \<and>
   (2::int) \<in> {0, 1, 2, 3} \<and>
   sig_i \<lparr>sig_r = 32, sig_s = 32, sig_i = 33\<rparr> = 2 + 4 + 27 \<and>
   (sig_i \<lparr>sig_r = 32, sig_s = 32, sig_i = 33\<rparr> - 27) AND 3 = 2 \<and>
   recoverPublicKey run_engine \<lparr>sig_r = 32, sig_s = 32, sig_i = 33\<rparr> (replicate 32 0)
     = recoverPubKey run_engine (BigInteger_fromBuffer (replicate 32 0))
         \<lparr>sig_r = 32, sig_s = 32, sig_i = 33\<rparr> 2"
proof -
  have run: "signBufferSha256 run_engine (Buffer (replicate 32 0)) \<lparr>key_d = 7\<rparr> 0
     = Some (Inr (\<lparr>sig_r = 32, sig_s = 32, sig_i = 33\<rparr>, 3))"
    by (simp add: run_signBufferSha256_0)
  have v: "(2::int) = calcPubKeyRecoveryParam run_engine (BigInteger_fromBuffer (replicate 32 0))
                \<lparr>ecs_r = sig_r \<lparr>sig_r = 32, sig_s = 32, sig_i = 33\<rparr>,
                   ecs_s = sig_s \<lparr>sig_r = 32, sig_s = 32, sig_i = 33\<rparr>\<rparr>
                (toPublicKey_Q run_engine \<lparr>key_d = 7\<rparr>)"
    by (simp add: run_engine_simps)
  have m: "(2::int) \<in> {0, 1, 2, 3}" by simp
  from headerByte_pack_unpack [OF run v m, of "replicate 32 0"] run v show ?thesis by simp
qed

text \<open>
  Claim C6. For every hash of 32 bytes and private key: if the candidate of some nonce
  \<open>n\<close> has both DER lengths equal to 32, the nonce loop of \<open>signBufferSha256\<close>
  terminates, and it returns the candidate of the smallest nonce \<open>m\<close> that has: the
  candidates of all nonces below \<open>m\<close> are rejected, and the result is the Signature
  built from the candidate of \<open>m\<close>, with the engine in the state after \<open>m + 1\<close>
  calls.
\<close>

theorem nonce_loop_returns_first_accepted:
  assumes "length buf = 32"
    and "der_lengths_32 (toDER E (candidate E buf key w n))"
  shows "\<exists>m\<le>n. der_lengths_32 (toDER E (candidate E buf key w m)) \<and>
           (\<forall>k<m. \<not> der_lengths_32 (toDER E (candidate E buf key w k))) \<and>
           signBufferSha256 E (Buffer buf) key w =
             Some (Inr (accepted_signature E buf key (candidate E buf key w m),
                        engine_state E buf key w (Suc m)))"
proof -
  let ?P = "\<lambda>k. der_lengths_32 (toDER E (candidate E buf key w k))"
  define m where "m = (LEAST k. ?P k)"
  have acc: "?P m" unfolding m_def using assms(2) by (rule LeastI)
  have le: "m \<le> n" unfolding m_def using assms(2) by (rule Least_le)
  have rej: "\<forall>k<m. \<not> ?P k" unfolding m_def using not_less_Least by blast
  have "nonce_loop E buf key (BigInteger_fromBuffer buf) 0 (engine_state E buf key w 0) =
     Some (accepted_signature E buf key (candidate E buf key w m),
           engine_state E buf key w (Suc m))"
    using acc rej by (intro nonce_loop_run) simp_all
  then have "signBufferSha256 E (Buffer buf) key w =
     Some (Inr (accepted_signature E buf key (candidate E buf key w m),
                engine_state E buf key w (Suc m)))"
    using assms(1) by (simp add: signBufferSha256_Buffer)
  with acc le rej show ?thesis by blast
qed

theorem nonce_loop_returns_first_accepted_witness:
  "length (replicate 32 (0::byte)) = 32 \<and>
   der_lengths_32 (toDER run_engine (candidate run_engine (replicate 32 0) \<lparr>key_d = 7\<rparr> 0 2)) \<and>
   \<not> der_lengths_32 (toDER run_engine (candidate run_engine (replicate 32 0) \<lparr>key_d = 7\<rparr> 0 0)) \<and>
   \<not> der_lengths_32 (toDER run_engine (candidate run_engine (replicate 32 0) \<lparr>key_d = 7\<rparr> 0 1)) \<and>
   signBufferSha256 run_engine (Buffer (replicate 32 0)) \<lparr>key_d = 7\<rparr> 0 =
     Some (Inr (accepted_signature run_engine (replicate 32 0) \<lparr>key_d = 7\<rparr>
                  (candidate run_engine (replicate 32 0) \<lparr>key_d = 7\<rparr> 0 2),
                engine_state run_engine (replicate 32 0) \<lparr>key_d = 7\<rparr> 0 3))"
proof -
  let ?B = "replicate 32 (0::byte)"
  let ?K = "\<lparr>key_d = 7\<rparr>"
  let ?P = "\<lambda>k. der_lengths_32 (toDER run_engine (candidate run_engine ?B ?K 0 k))"
  have len: "length ?B = 32" by simp
  have p2: "?P 2" by (simp add: run_candidates run_engine_simps run_der_lengths_32)
  have p0: "\<not> ?P 0" by (simp add: run_candidates run_engine_simps run_der_lengths_32)
  have p1: "\<not> ?P 1" by (simp add: run_candidates run_engine_simps run_der_lengths_32)
  from nonce_loop_returns_first_accepted [OF len p2] obtain m where m: "m \<le> 2" "?P m"
    and res: "signBufferSha256 run_engine (Buffer ?B) ?K 0 =
       Some (Inr (accepted_signature run_engine ?B ?K (candidate run_engine ?B ?K 0 m),
                  engine_state run_engine ?B ?K 0 (Suc m)))"
    by blast
  from m p0 p1 have "m = 2"
    by (cases "m = 0"; cases "m = 1") auto
  with res have "signBufferSha256 run_engine (Buffer ?B) ?K 0 =
       Some (Inr (accepted_signature run_engine ?B ?K (candidate run_engine ?B ?K 0 2),
                  engine_state run_engine ?B ?K 0 3))"
    by (simp add: eval_nat_numeral)
  with len p2 p0 p1 show ?thesis by blast
qed

text \<open>
  Claim C8. The operations that take a hash reject an input of the wrong size at once:
  \<open>signBufferSha256\<close> raises its error on every argument that is not a buffer of 32
  bytes, whatever the engine (so without a call of \<open>sign\<close> and without entering the
  loop), and runs the nonce loop only on a buffer of 32 bytes; \<open>verifyHash\<close> and
  \<open>verifyHashV2\<close> fail their assertion on every hash whose length is not 32. These
  errors are the specification's InputError.
\<close>

theorem hash_length_rejected:
  "(arg_length a \<noteq> Some 32 \<or> \<not> isBuffer a \<longrightarrow>
      signBufferSha256 E a key w = Some (Inl Buf_sha256_32_byte_buffer_required)) \<and>
   (length buf = 32 \<longrightarrow>
      signBufferSha256 E (Buffer buf) key w =
        map_option Inr (nonce_loop E buf key (BigInteger_fromBuffer buf) 0 w)) \<and>
   (length hash \<noteq> 32 \<longrightarrow>
      verifyHash E sig hash Q = Inl (SHA256_should_be_32_bytes (length hash)) \<and>
      verifyHashV2 E sig hash Q = Inl (SHA256_should_be_32_bytes (length hash)))"
  by (simp add: signBufferSha256_def verifyHash_def verifyHashV2_def)

theorem hash_length_rejected_witness:
  "signBufferSha256 run_engine (NotBuffer (Some 32)) \<lparr>key_d = 7\<rparr> 0
     = Some (Inl Buf_sha256_32_byte_buffer_required) \<and>
   signBufferSha256 run_engine (NotBuffer None) \<lparr>key_d = 7\<rparr> 0
     = Some (Inl Buf_sha256_32_byte_buffer_required) \<and>
   signBufferSha256 run_engine (Buffer (replicate 31 0)) \<lparr>key_d = 7\<rparr> 0
     = Some (Inl Buf_sha256_32_byte_buffer_required) \<and>
   signBufferSha256 run_engine (Buffer (replicate 32 0)) \<lparr>key_d = 7\<rparr> 0
     = map_option Inr (nonce_loop run_engine (replicate 32 0) \<lparr>key_d = 7\<rparr>
         (BigInteger_fromBuffer (replicate 32 0)) 0 0) \<and>
   verifyHash run_engine \<lparr>sig_r = 32, sig_s = 32, sig_i = 33\<rparr> (replicate 33 0) 0
     = Inl (SHA256_should_be_32_bytes 33) \<and>
   verifyHashV2 run_engine \<lparr>sig_r = 32, sig_s = 32, sig_i = 33\<rparr> (replicate 33 0) 0
     = Inl (SHA256_should_be_32_bytes 33)"
  using hash_length_rejected [where a = "NotBuffer (Some 32)" and E = run_engine and key = "\<lparr>key_d = 7\<rparr>"
      and w = 0 and buf = "replicate 32 0" and hash = "replicate 33 0"
      and sig = "\<lparr>sig_r = 32, sig_s = 32, sig_i = 33\<rparr>" and Q = 0]
    hash_length_rejected [where a = "NotBuffer None" and E = run_engine and key = "\<lparr>key_d = 7\<rparr>"
      and w = 0 and buf = "replicate 32 0" and hash = "replicate 33 0"
      and sig = "\<lparr>sig_r = 32, sig_s = 32, sig_i = 33\<rparr>" and Q = 0]
    hash_length_rejected [where a = "Buffer (replicate 31 0)" and E = run_engine and key = "\<lparr>key_d = 7\<rparr>"
      and w = 0 and buf = "replicate 32 0" and hash = "replicate 33 0"
      and sig = "\<lparr>sig_r = 32, sig_s = 32, sig_i = 33\<rparr>" and Q = 0]
  by simp



text \<open>
  Claim C10. The round trip in the other direction: for every Signature whose header
  byte lies in 27..34 and whose \<open>r\<close> and \<open>s\<close> are below \<open>2 ^ 256\<close>, \<open>toBuffer\<close>
  succeeds and \<open>fromBuffer\<close> of its result is the Signature again, with the same
  \<open>r\<close>, \<open>s\<close> and header byte.
\<close>

theorem Signature_encode_decode:
  assumes "27 \<le> sig_i sig" and "sig_i sig \<le> 34"
    and "sig_r sig < 2 ^ 256" and "sig_s sig < 2 ^ 256"
  shows "\<exists>b. toBuffer sig = Inr b \<and> fromBuffer b = Inr (sig :: Signature)"
proof -
  let ?R = "BigInteger_toBuffer (sig_r sig) 32"
  let ?S = "BigInteger_toBuffer (sig_s sig) 32"
  let ?h = "word_of_int (sig_i sig) :: byte"
  let ?b = "?h # ?R @ ?S"
  have lr: "length ?R = 32" using assms(3) by (simp add: length_BigInteger_toBuffer)
  have ls: "length ?S = 32" using assms(4) by (simp add: length_BigInteger_toBuffer)
  have enc: "toBuffer sig = Inr ?b"
    using assms by (intro toBuffer_layout) simp_all
  have h: "uint ?h = sig_i sig"
    using assms(1,2) by (simp add: uint_word_of_int take_bit_eq_mod)
  have len: "length ?b = 65" using lr ls by simp
  have "fromBuffer ?b = Inr \<lparr>sig_r = BigInteger_fromBuffer (slice_range ?b 1 33),
                              sig_s = BigInteger_fromBuffer (slice_from ?b 33),
                              sig_i = uint (?b ! 0)\<rparr>"
    using assms(1,2) len h by (simp add: fromBuffer_cases)
  also have "slice_range ?b 1 33 = ?R" using lr by (rule slice_1_33)
  also have "slice_from ?b 33 = ?S" using lr by (rule slice_from_33)
  finally have "fromBuffer ?b = Inr sig"
    using h by (simp add: BigInteger_fromBuffer_toBuffer)
  with enc show ?thesis by blast
qed

theorem Signature_encode_decode_witness:
  "27 \<le> sig_i \<lparr>sig_r = 2 ^ 255 + 1, sig_s = 5, sig_i = 34\<rparr> \<and>
   sig_i \<lparr>sig_r = 2 ^ 255 + 1, sig_s = 5, sig_i = 34\<rparr> \<le> 34 \<and>
   sig_r \<lparr>sig_r = 2 ^ 255 + 1, sig_s = 5, sig_i = 34\<rparr> < 2 ^ 256 \<and>
   sig_s \<lparr>sig_r = 2 ^ 255 + 1, sig_s = 5, sig_i = 34\<rparr> < 2 ^ 256 \<and>
   (\<exists>b. toBuffer \<lparr>sig_r = 2 ^ 255 + 1, sig_s = 5, sig_i = 34\<rparr> = Inr b \<and>
      fromBuffer b = Inr \<lparr>sig_r = 2 ^ 255 + 1, sig_s = 5, sig_i = 34\<rparr>)"
  using Signature_encode_decode [of "\<lparr>sig_r = 2 ^ 255 + 1, sig_s = 5, sig_i = 34\<rparr>"] by simp

end
